theory Spec2Isabelle
  imports Main "HOL-Library.Word"
begin

section \<open>Proof exporter: bytes and hex strings\<close>

text \<open>
  The script \<^verbatim>\<open>scripts/export_proofs.py\<close> turns two binary artefacts of a circuit
  directory into a JSON document of hex strings. A Python \<^verbatim>\<open>bytes\<close> value is a list of
  8-bit words; a Python \<^verbatim>\<open>str\<close> is a \<^typ>\<open>string\<close>, each character standing for the code
  point of the same number (code points below 256).
\<close>

type_synonym byte = "8 word"
type_synonym bytes = "byte list"

definition FIELD_ELEMENT_SIZE :: nat where
  "FIELD_ELEMENT_SIZE = 32"

definition hexdigits :: string where
  "hexdigits = ''0123456789abcdef''"

definition hex_digit :: "nat \<Rightarrow> char" where
  "hex_digit n = hexdigits ! n"

text \<open>\<^verbatim>\<open>bytes.hex()\<close>: two lowercase digits for every byte, high nibble first.\<close>

definition hex_byte :: "byte \<Rightarrow> string" where
  "hex_byte b = [hex_digit (unat b div 16), hex_digit (unat b mod 16)]"

definition bytes_hex :: "bytes \<Rightarrow> string" where
  "bytes_hex data = concat (map hex_byte data)"

definition to_hex :: "bytes \<Rightarrow> string" where
  "to_hex data = ''0x'' @ bytes_hex data"

text \<open>
  The decoder the round-trip property of the specification speaks of. It is not part of
  the script: it reads the \<^verbatim>\<open>0x\<close> prefix and then pairs of hex digits, and rejects
  everything else.
\<close>

definition hex_val :: "char \<Rightarrow> nat option" where
  "hex_val c = map_of (zip hexdigits [0..<16]) c"

fun unhex :: "string \<Rightarrow> bytes option" where
  "unhex [] = Some []"
| "unhex [c] = None"
| "unhex (c # d # cs) =
     (case (hex_val c, hex_val d, unhex cs) of
        (Some h, Some l, Some bs) \<Rightarrow> Some (of_nat (16 * h + l) # bs)
      | _ \<Rightarrow> None)"

definition spec_hex_decode :: "string \<Rightarrow> bytes option" where
  "spec_hex_decode s =
     (case s of
        c # d # cs \<Rightarrow> if c = CHR ''0'' \<and> d = CHR ''x'' then unhex cs else None
      | _ \<Rightarrow> None)"

section \<open>Paths\<close>

text \<open>
  A \<^verbatim>\<open>pathlib.Path\<close> on a POSIX system: the root (empty for a relative path, \<^verbatim>\<open>/\<close> or
  \<^verbatim>\<open>//\<close>) and the list of names after it. Parsing a string splits it at the slashes and
  drops empty names and \<^verbatim>\<open>.\<close>; the operator \<^verbatim>\<open>/\<close> appends the names of a relative
  right operand and is replaced by an absolute one; \<^verbatim>\<open>str\<close> joins the names again.
\<close>

record path =
  anchor :: string
  names :: "string list"

fun split_sep :: "char \<Rightarrow> string \<Rightarrow> string list" where
  "split_sep c [] = [[]]"
| "split_sep c (x # xs) =
     (if x = c then [] # split_sep c xs
      else (case split_sep c xs of
              [] \<Rightarrow> [[x]]
            | w # ws \<Rightarrow> (x # w) # ws))"

fun join_strings :: "string \<Rightarrow> string list \<Rightarrow> string" where
  "join_strings sep [] = []"
| "join_strings sep [x] = x"
| "join_strings sep (x # y # ys) = x @ sep @ join_strings sep (y # ys)"

definition parse_path :: "string \<Rightarrow> path" where
  "parse_path s =
     \<lparr>anchor =
        (if take 1 s = ''/''
         then (if take 2 s = ''//'' \<and> take 3 s \<noteq> ''///'' then ''//'' else ''/'')
         else []),
      names = filter (\<lambda>x. x \<noteq> [] \<and> x \<noteq> ''.'') (split_sep CHR ''/'' s)\<rparr>"

definition joinpath :: "path \<Rightarrow> string \<Rightarrow> path" where
  "joinpath p s =
     (let q = parse_path s
      in if anchor q \<noteq> [] then q
         else \<lparr>anchor = anchor p, names = names p @ names q\<rparr>)"

definition path_str :: "path \<Rightarrow> string" where
  "path_str p =
     (if anchor p = [] \<and> names p = [] then ''.''
      else anchor p @ join_strings ''/'' (names p))"

section \<open>Decimal numerals\<close>

definition digit_char :: "nat \<Rightarrow> char" where
  "digit_char n = ''0123456789'' ! n"

function str_nat :: "nat \<Rightarrow> string" where
  "str_nat n =
     (if n < 10 then [digit_char n]
      else str_nat (n div 10) @ [digit_char (n mod 10)])"
  by pat_completeness auto
termination
  by (relation "measure id") auto

declare str_nat.simps [simp del]

section \<open>The file system and the trace of operations\<close>

text \<open>
  The file system maps a path to the entry found there, if any: a regular file with its
  bytes, or a directory. Distinct paths are distinct entries (links, \<^verbatim>\<open>..\<close> and the
  working directory are not resolved). The world also records, in order, every file
  operation the script calls and every line it prints; the record changes nothing of
  what the operations compute.
\<close>

datatype entry = File bytes | Directory

datatype os_error = ENOENT | EISDIR

text \<open>
  The exceptions of the script: \<open>ValueError\<close> is raised by \<^verbatim>\<open>read_public_inputs\<close>
  (the specification's \<^verbatim>\<open>MalformedInput\<close>), \<open>FileNotFoundError\<close> by the existence check of
  \<^verbatim>\<open>export_directory\<close> (the specification's \<^verbatim>\<open>MissingArtifact\<close>), each with its message;
  \<open>OSError\<close> is what the operating system raises inside \<^verbatim>\<open>read_bytes\<close> and
  \<^verbatim>\<open>write_text\<close> (the specification's generic I/O error).
\<close>

datatype error = ValueError string | FileNotFoundError string | OSError os_error path

datatype io_event =
  Exists path
| ReadBytes path
| WriteText path string
| Print string

record world =
  files :: "path \<Rightarrow> entry option"
  trace :: "io_event list"

definition log_event :: "io_event \<Rightarrow> world \<Rightarrow> world" where
  "log_event e w = w\<lparr>trace := trace w @ [e]\<rparr>"

text \<open>\<^verbatim>\<open>Path.exists()\<close> is true of a file and of a directory alike.\<close>

definition path_exists :: "path \<Rightarrow> world \<Rightarrow> bool \<times> world" where
  "path_exists p w = (files w p \<noteq> None, log_event (Exists p) w)"

definition read_bytes :: "path \<Rightarrow> world \<Rightarrow> (error + bytes) \<times> world" where
  "read_bytes p w =
     ((case files w p of
         None \<Rightarrow> Inl (OSError ENOENT p)
       | Some Directory \<Rightarrow> Inl (OSError EISDIR p)
       | Some (File data) \<Rightarrow> Inr data),
      log_event (ReadBytes p) w)"

text \<open>
  The text the script writes is ASCII (see \<open>encode_basestring_ascii\<close> below), so each
  character is written as the byte of its code. \<^verbatim>\<open>write_text\<close> creates the file or
  replaces its content; it fails on a directory. Its only call is reached after a file was
  read in the same directory, so the directory is there.
\<close>

definition encode_text :: "string \<Rightarrow> bytes" where
  "encode_text s = map (\<lambda>c. of_nat (of_char c)) s"

definition write_text :: "path \<Rightarrow> string \<Rightarrow> world \<Rightarrow> (error + unit) \<times> world" where
  "write_text p s w =
     (case files w p of
        Some Directory \<Rightarrow> (Inl (OSError EISDIR p), log_event (WriteText p s) w)
      | _ \<Rightarrow>
          (Inr (), log_event (WriteText p s) (w\<lparr>files := (files w)(p \<mapsto> File (encode_text s))\<rparr>)))"

definition print :: "string \<Rightarrow> world \<Rightarrow> world" where
  "print s w = log_event (Print s) w"

section \<open>JSON values and \<^verbatim>\<open>json.dumps(obj, indent=2)\<close>\<close>

text \<open>
  A dictionary keeps its keys in insertion order, so it is an association list.
  Strings are written between double quotes with \<^verbatim>\<open>ensure_ascii\<close>: the quote,
  the backslash and every character outside the range from space to tilde are escaped.
  With an indent, items are separated by a comma and a new line, a key from its value by
  a colon and a space, and an empty container stays on one line.
\<close>

datatype json = JString string | JArray "json list" | JObject "(string \<times> json) list"

definition escape_char :: "char \<Rightarrow> string" where
  "escape_char c =
     (if c = CHR 0x22 then [CHR 0x5C, CHR 0x22]
      else if c = CHR 0x5C then [CHR 0x5C, CHR 0x5C]
      else if c = CHR 0x0A then [CHR 0x5C, CHR ''n'']
      else if c = CHR 0x0D then [CHR 0x5C, CHR ''r'']
      else if c = CHR 0x09 then [CHR 0x5C, CHR ''t'']
      else if c = CHR 0x08 then [CHR 0x5C, CHR ''b'']
      else if c = CHR 0x0C then [CHR 0x5C, CHR ''f'']
      else if 32 \<le> (of_char c :: nat) \<and> (of_char c :: nat) \<le> 126 then [c]
      else [CHR 0x5C, CHR ''u'', CHR ''0'', CHR ''0''] @ hex_byte (of_nat (of_char c)))"

definition encode_basestring_ascii :: "string \<Rightarrow> string" where
  "encode_basestring_ascii s = [CHR 0x22] @ concat (map escape_char s) @ [CHR 0x22]"

definition newline_indent :: "nat \<Rightarrow> string" where
  "newline_indent level = CHR 0x0A # replicate (2 * level) CHR '' ''"

fun dumps_level :: "nat \<Rightarrow> json \<Rightarrow> string" where
  "dumps_level level (JString s) = encode_basestring_ascii s"
| "dumps_level level (JArray xs) =
     (if xs = [] then ''[]''
      else ''['' @ newline_indent (Suc level)
        @ join_strings ('','' @ newline_indent (Suc level)) (map (dumps_level (Suc level)) xs)
        @ newline_indent level @ '']'')"
| "dumps_level level (JObject kvs) =
     (if kvs = [] then ''{}''
      else ''{'' @ newline_indent (Suc level)
        @ join_strings ('','' @ newline_indent (Suc level))
            (map (\<lambda>kv. encode_basestring_ascii (fst kv) @ '': '' @ dumps_level (Suc level) (snd kv)) kvs)
        @ newline_indent level @ ''}'')"

definition dumps_indent2 :: "json \<Rightarrow> string" where
  "dumps_indent2 obj = dumps_level 0 obj"

text \<open>\<^verbatim>\<open>d[k] = v\<close>: a key already present keeps its place, a new key goes to the end.\<close>

fun dict_setitem :: "('k \<times> 'v) list \<Rightarrow> 'k \<Rightarrow> 'v \<Rightarrow> ('k \<times> 'v) list" where
  "dict_setitem [] k v = [(k, v)]"
| "dict_setitem ((k', v') # d) k v =
     (if k' = k then (k, v) # d else (k', v') # dict_setitem d k v)"

section \<open>The script\<close>

text \<open>
  \<^verbatim>\<open>range(0, n, step)\<close> for a positive step, and the slice \<^verbatim>\<open>data[i:j]\<close> for
  \<open>i \<le> j\<close>, which stops at the end of the data.
\<close>

definition range_step :: "nat \<Rightarrow> nat \<Rightarrow> nat list" where
  "range_step n step = map (\<lambda>j. j * step) [0..<(n + step - 1) div step]"

definition py_slice :: "'a list \<Rightarrow> nat \<Rightarrow> nat \<Rightarrow> 'a list" where
  "py_slice xs i j = take (j - i) (drop i xs)"

definition malformed_message :: "path \<Rightarrow> nat \<Rightarrow> string" where
  "malformed_message p n =
     ''Public inputs file '' @ path_str p @ '' length '' @ str_nat n
       @ '' is not a multiple of 32''"

definition read_public_inputs :: "path \<Rightarrow> world \<Rightarrow> (error + string list) \<times> world" where
  "read_public_inputs p w =
     (case read_bytes p w of
        (Inl e, w') \<Rightarrow> (Inl e, w')
      | (Inr data, w') \<Rightarrow>
          if length data mod FIELD_ELEMENT_SIZE \<noteq> 0
          then (Inl (ValueError (malformed_message p (length data))), w')
          else (Inr (map (\<lambda>i. to_hex (py_slice data i (i + FIELD_ELEMENT_SIZE)))
                       (range_step (length data) FIELD_ELEMENT_SIZE)), w'))"

definition proof_path :: "path \<Rightarrow> path" where
  "proof_path dir_path = joinpath (joinpath dir_path ''target'') ''proof''"

definition public_inputs_path :: "path \<Rightarrow> path" where
  "public_inputs_path dir_path = joinpath (joinpath dir_path ''target'') ''public_inputs''"

definition output_path :: "path \<Rightarrow> path" where
  "output_path dir_path = joinpath (joinpath dir_path ''target'') ''proof.json''"

definition missing_message :: "path \<Rightarrow> string" where
  "missing_message dir_path =
     ''Expected proof/public_inputs in '' @ path_str dir_path @ ''/target''"

definition make_payload :: "string \<Rightarrow> string list \<Rightarrow> json" where
  "make_payload proof_hex public_inputs_hex =
     JObject [(''proof'', JString proof_hex),
              (''public_inputs'', JArray (map JString public_inputs_hex))]"

text \<open>
  \<^verbatim>\<open>export_directory\<close>. The \<^verbatim>\<open>or\<close> of the existence check does not evaluate its second
  operand when the first file is missing.
\<close>

definition export_directory :: "path \<Rightarrow> world \<Rightarrow> (error + json) \<times> world" where
  "export_directory dir_path w =
     (case path_exists (proof_path dir_path) w of
        (False, w1) \<Rightarrow> (Inl (FileNotFoundError (missing_message dir_path)), w1)
      | (True, w1) \<Rightarrow>
     (case path_exists (public_inputs_path dir_path) w1 of
        (False, w2) \<Rightarrow> (Inl (FileNotFoundError (missing_message dir_path)), w2)
      | (True, w2) \<Rightarrow>
     (case read_bytes (proof_path dir_path) w2 of
        (Inl e, w3) \<Rightarrow> (Inl e, w3)
      | (Inr data, w3) \<Rightarrow>
     (case read_public_inputs (public_inputs_path dir_path) w3 of
        (Inl e, w4) \<Rightarrow> (Inl e, w4)
      | (Inr public_inputs_hex, w4) \<Rightarrow>
     (let payload = make_payload (to_hex data) public_inputs_hex
      in case write_text (output_path dir_path) (dumps_indent2 payload) w4 of
           (Inl e, w5) \<Rightarrow> (Inl e, w5)
         | (Inr u, w5) \<Rightarrow> (Inr payload, w5))))))"

text \<open>
  \<^verbatim>\<open>main\<close>. The argument parser gives the positional names, or the three default names
  when there is none, and the base directory (the option's value or its default, taken
  as given). The loop stops at the first exception, which nothing catches: the process
  then ends with a non-zero status and prints no report.
\<close>

record args =
  circuits :: "string list"
  base_dir :: path

definition default_circuits :: "string list" where
  "default_circuits = [''deposit'', ''transfer'', ''withdraw'']"

definition parse_args :: "string list \<Rightarrow> path \<Rightarrow> args" where
  "parse_args positional base =
     \<lparr>circuits = (if positional = [] then default_circuits else positional),
      base_dir = base\<rparr>"

fun export_loop ::
  "path \<Rightarrow> string list \<Rightarrow> (string \<times> json) list \<Rightarrow> world
     \<Rightarrow> (error + (string \<times> json) list) \<times> world" where
  "export_loop base [] results w = (Inr results, w)"
| "export_loop base (circuit # rest) results w =
     (case export_directory (joinpath base circuit) w of
        (Inl e, w') \<Rightarrow> (Inl e, w')
      | (Inr payload, w') \<Rightarrow> export_loop base rest (dict_setitem results circuit payload) w')"

definition main :: "string list \<Rightarrow> path \<Rightarrow> world \<Rightarrow> (error + unit) \<times> world" where
  "main positional base w =
     (let a = parse_args positional base
      in case export_loop (base_dir a) (circuits a) [] w of
           (Inl e, w') \<Rightarrow> (Inl e, w')
         | (Inr results, w') \<Rightarrow> (Inr (), print (dumps_indent2 (JObject results)) w'))"

definition exit_status :: "error + unit \<Rightarrow> nat" where
  "exit_status r = (case r of Inl e \<Rightarrow> 1 | Inr u \<Rightarrow> 0)"

section \<open>Notions of the specification and observations of a run\<close>

text \<open>
  The consecutive, non-overlapping 32-byte windows of a byte sequence, in order, as the
  specification describes the field elements of a public-inputs file.
\<close>

definition spec_windows :: "bytes \<Rightarrow> bytes list" where
  "spec_windows data = map (\<lambda>j. take 32 (drop (32 * j) data)) [0..<length data div 32]"

text \<open>What a trace shows: the lines printed, and the paths \<^verbatim>\<open>write_text\<close> was called on.\<close>

fun printed :: "io_event list \<Rightarrow> string list" where
  "printed [] = []"
| "printed (Print s # es) = s # printed es"
| "printed (e # es) = printed es"

fun written :: "io_event list \<Rightarrow> path list" where
  "written [] = []"
| "written (WriteText p s # es) = p # written es"
| "written (e # es) = written es"



text \<open>
  A directory can be exported when both artefacts are regular files, the public inputs
  have a length that is a multiple of 32, and the output path is not a directory.
\<close>

definition exportable :: "world \<Rightarrow> path \<Rightarrow> bool" where
  "exportable w d =
     (case (files w (proof_path d), files w (public_inputs_path d)) of
        (Some (File pd), Some (File data)) \<Rightarrow>
          length data mod 32 = 0 \<and> files w (output_path d) \<noteq> Some Directory
      | _ \<Rightarrow> False)"




subsection \<open>Example worlds\<close>

text \<open>
  A base directory \<^verbatim>\<open>circuits\<close>. In \<open>demo_world\<close> the circuit \<^verbatim>\<open>deposit\<close> has a two-byte
  proof, 64 zero bytes of public inputs and a stale \<^verbatim>\<open>proof.json\<close>; \<^verbatim>\<open>transfer\<close> has a
  proof and 31 bytes of public inputs, and a stale \<^verbatim>\<open>proof.json\<close>; \<^verbatim>\<open>withdraw\<close> has a proof
  and empty public inputs; \<^verbatim>\<open>partial\<close> has public inputs and no proof. In \<open>directory_world\<close> the path \<^verbatim>\<open>deposit/target/proof\<close> is a
  directory.
\<close>

definition demo_base :: path where
  "demo_base = \<lparr>anchor = [], names = [''circuits'']\<rparr>"

definition deposit_dir :: path where
  "deposit_dir = \<lparr>anchor = [], names = [''circuits'', ''deposit'']\<rparr>"

definition transfer_dir :: path where
  "transfer_dir = \<lparr>anchor = [], names = [''circuits'', ''transfer'']\<rparr>"

definition withdraw_dir :: path where
  "withdraw_dir = \<lparr>anchor = [], names = [''circuits'', ''withdraw'']\<rparr>"

definition partial_dir :: path where
  "partial_dir = \<lparr>anchor = [], names = [''circuits'', ''partial'']\<rparr>"

definition demo_world :: world where
  "demo_world =
     \<lparr>files =
        [proof_path deposit_dir \<mapsto> File [0xAB, 0xCD],
         public_inputs_path deposit_dir \<mapsto> File (replicate 64 0),
         output_path deposit_dir \<mapsto> File [1, 2, 3],
         proof_path transfer_dir \<mapsto> File [0x01],
         public_inputs_path transfer_dir \<mapsto> File (replicate 31 0),
         output_path transfer_dir \<mapsto> File [4, 5],
         proof_path withdraw_dir \<mapsto> File [0xFF],
         public_inputs_path withdraw_dir \<mapsto> File [],
         public_inputs_path partial_dir \<mapsto> File (replicate 32 0)],
      trace = []\<rparr>"

definition directory_world :: world where
  "directory_world =
     \<lparr>files =
        [proof_path deposit_dir \<mapsto> Directory,
         public_inputs_path deposit_dir \<mapsto> File (replicate 64 0)],
      trace = []\<rparr>"

section \<open>Properties of the hex encoder\<close>

lemma hexdigits_length: "length hexdigits = 16"
  by (simp add: hexdigits_def)

lemma hexdigits_distinct: "distinct hexdigits"
  by (simp add: hexdigits_def)

lemma hex_val_hex_digit: "n < 16 \<Longrightarrow> hex_val (hex_digit n) = Some n"
proof -
  assume n: "n < 16"
  have "map_of (zip hexdigits [0..<16]) (hexdigits ! n) = Some ([0..<16] ! n)"
    by (rule map_of_zip_nth) (use n in \<open>simp_all add: hexdigits_length hexdigits_distinct\<close>)
  with n show ?thesis
    by (simp add: hex_val_def hex_digit_def)
qed

lemma hex_digit_in: "n < 16 \<Longrightarrow> hex_digit n \<in> set hexdigits"
  by (simp add: hex_digit_def hexdigits_length)

lemma byte_nibbles: "(of_nat (16 * (unat b div 16) + unat b mod 16) :: byte) = b"
  by simp

lemma unat_byte_div16: "unat (b :: byte) div 16 < 16"
proof -
  have "unat b < 2 ^ 8"
    using unsigned_less [of b] by simp
  then show ?thesis by simp
qed

lemma unhex_bytes_hex: "unhex (bytes_hex data @ rest) = (case unhex rest of None \<Rightarrow> None | Some bs \<Rightarrow> Some (data @ bs))"
proof (induction data)
  case Nil
  show ?case by (simp add: bytes_hex_def split: option.split)
next
  case (Cons b data)
  then show ?case
    by (simp add: bytes_hex_def hex_byte_def hex_val_hex_digit unat_byte_div16
        split: option.split)
qed

lemma length_bytes_hex: "length (bytes_hex data) = 2 * length data"
  by (induction data) (simp_all add: bytes_hex_def hex_byte_def)

lemma set_bytes_hex: "set (bytes_hex data) \<subseteq> set hexdigits"
  by (induction data)
    (simp_all add: bytes_hex_def hex_byte_def hex_digit_in unat_byte_div16)

lemma hex_decode_to_hex: "spec_hex_decode (to_hex data) = Some data"
  using unhex_bytes_hex [of data "[]"]
  by (simp add: spec_hex_decode_def to_hex_def)

lemma length_to_hex: "length (to_hex data) = 2 * length data + 2"
  by (simp add: to_hex_def length_bytes_hex)

text \<open>
  C3. For every byte sequence the encoder returns (it is a total function, with no
  error value in its type) the prefix \<^verbatim>\<open>0x\<close> followed by exactly two characters per
  byte, all of them lowercase hex digits; the empty sequence gives \<^verbatim>\<open>0x\<close>; and decoding
  the result gives the bytes back.
\<close>

theorem to_hex_contract:
  "to_hex b = ''0x'' @ bytes_hex b
   \<and> length (bytes_hex b) = 2 * length b
   \<and> length (to_hex b) = 2 * length b + 2
   \<and> set (bytes_hex b) \<subseteq> set ''0123456789abcdef''
   \<and> to_hex [] = ''0x''
   \<and> spec_hex_decode (to_hex b) = Some b"
proof (intro conjI)
  show "to_hex b = ''0x'' @ bytes_hex b"
    by (simp add: to_hex_def)
  show "length (bytes_hex b) = 2 * length b"
    by (rule length_bytes_hex)
  show "length (to_hex b) = 2 * length b + 2"
    by (rule length_to_hex)
  show "set (bytes_hex b) \<subseteq> set ''0123456789abcdef''"
    using set_bytes_hex [of b] by (simp only: hexdigits_def)
  show "to_hex [] = ''0x''"
    by (simp add: to_hex_def bytes_hex_def)
  show "spec_hex_decode (to_hex b) = Some b"
    by (rule hex_decode_to_hex)
qed

section \<open>The paths of a circuit directory\<close>

lemma parse_target: "parse_path ''target'' = \<lparr>anchor = [], names = [''target'']\<rparr>"
  by (simp add: parse_path_def)

lemma parse_proof: "parse_path ''proof'' = \<lparr>anchor = [], names = [''proof'']\<rparr>"
  by (simp add: parse_path_def)

lemma parse_public_inputs: "parse_path ''public_inputs'' = \<lparr>anchor = [], names = [''public_inputs'']\<rparr>"
  by (simp add: parse_path_def)

lemma parse_proof_json: "parse_path ''proof.json'' = \<lparr>anchor = [], names = [''proof.json'']\<rparr>"
  by (simp add: parse_path_def)

lemma proof_path_eq: "proof_path d = \<lparr>anchor = anchor d, names = names d @ [''target'', ''proof'']\<rparr>"
  by (simp add: proof_path_def joinpath_def parse_target parse_proof)

lemma public_inputs_path_eq:
  "public_inputs_path d = \<lparr>anchor = anchor d, names = names d @ [''target'', ''public_inputs'']\<rparr>"
  by (simp add: public_inputs_path_def joinpath_def parse_target parse_public_inputs)

lemma output_path_eq:
  "output_path d = \<lparr>anchor = anchor d, names = names d @ [''target'', ''proof.json'']\<rparr>"
  by (simp add: output_path_def joinpath_def parse_target parse_proof_json)

lemma last_names_proof: "last (names (proof_path d)) = ''proof''"
  by (simp add: proof_path_eq)

lemma last_names_public: "last (names (public_inputs_path d)) = ''public_inputs''"
  by (simp add: public_inputs_path_eq)

lemma last_names_output: "last (names (output_path d)) = ''proof.json''"
  by (simp add: output_path_eq)

lemma output_neq_proof: "output_path d \<noteq> proof_path d'"
proof
  assume "output_path d = proof_path d'"
  then have "last (names (output_path d)) = last (names (proof_path d'))" by simp
  then show False by (simp add: last_names_proof last_names_output)
qed

lemma output_neq_public: "output_path d \<noteq> public_inputs_path d'"
proof
  assume "output_path d = public_inputs_path d'"
  then have "last (names (output_path d)) = last (names (public_inputs_path d'))" by simp
  then show False by (simp add: last_names_public last_names_output)
qed

lemma proof_neq_public: "proof_path d \<noteq> public_inputs_path d'"
proof
  assume "proof_path d = public_inputs_path d'"
  then have "last (names (proof_path d)) = last (names (public_inputs_path d'))" by simp
  then show False by (simp add: last_names_public last_names_proof)
qed

lemma output_path_inj: "output_path d = output_path d' \<Longrightarrow> d = d'"
  by (simp add: output_path_eq)

section \<open>The public-inputs reader\<close>

lemma range_step_exact: "range_step (32 * k) 32 = map (\<lambda>j. j * 32) [0..<k]"
proof -
  have "(32 * k + 32 - 1) div 32 = k" by simp
  then show ?thesis by (simp add: range_step_def)
qed

lemma comprehension_windows:
  assumes "length data = 32 * k"
  shows "map (\<lambda>i. to_hex (py_slice data i (i + FIELD_ELEMENT_SIZE)))
           (range_step (length data) FIELD_ELEMENT_SIZE) = map to_hex (spec_windows data)"
proof -
  have "range_step (length data) 32 = map (\<lambda>j. j * 32) [0..<k]"
    using assms range_step_exact [of k] by simp
  moreover have "length data div 32 = k"
    using assms by simp
  ultimately show ?thesis
    by (simp add: FIELD_ELEMENT_SIZE_def spec_windows_def py_slice_def mult.commute)
qed

lemma concat_take_drop:
  "concat (map (\<lambda>j. take m (drop (m * j) xs)) [0..<k]) = take (m * k) xs"
proof (induction k)
  case 0
  show ?case by simp
next
  case (Suc k)
  have "take (m * k) xs @ take m (drop (m * k) xs) = take (m * k + m) xs"
    by (simp add: take_add)
  with Suc show ?case by (simp add: add.commute)
qed

lemma concat_spec_windows: "length data = 32 * k \<Longrightarrow> concat (spec_windows data) = data"
  by (simp add: spec_windows_def concat_take_drop)

lemma length_spec_windows: "length (spec_windows data) = length data div 32"
  by (simp add: spec_windows_def)

lemma spec_windows_size:
  assumes "length data = 32 * k" and "c \<in> set (spec_windows data)"
  shows "length c = 32"
proof -
  from assms obtain j where j: "j < k" and c: "c = take 32 (drop (32 * j) data)"
    by (auto simp: spec_windows_def)
  from j have "32 * j + 32 \<le> 32 * k" by simp
  with assms(1) show ?thesis by (simp add: c)
qed

lemma decode_windows: "map spec_hex_decode (map to_hex cs) = map Some cs"
  by (simp add: hex_decode_to_hex)

lemma read_public_inputs_file:
  "files w p = Some (File data) \<Longrightarrow>
   read_public_inputs p w =
     (if length data mod 32 \<noteq> 0
      then Inl (ValueError (malformed_message p (length data)))
      else Inr (map (\<lambda>i. to_hex (py_slice data i (i + FIELD_ELEMENT_SIZE)))
                       (range_step (length data) FIELD_ELEMENT_SIZE)),
      w\<lparr>trace := trace w @ [ReadBytes p]\<rparr>)"
  by (simp add: read_public_inputs_def read_bytes_def log_event_def FIELD_ELEMENT_SIZE_def)

text \<open>
  C1. A public-inputs file of \<open>32 * k\<close> bytes: the reader returns the hex encodings of
  the \<open>k\<close> consecutive 32-byte windows of the file, in file order; each window has 32
  bytes, decoding the strings gives the windows back, and the windows put together are
  the bytes of the file. An empty file gives the empty list, not an error. Reading
  changes no file.
\<close>

theorem read_public_inputs_windows:
  assumes "files w p = Some (File data)" and "length data = 32 * k"
  shows "fst (read_public_inputs p w) = Inr (map to_hex (spec_windows data))
    \<and> length (map to_hex (spec_windows data)) = k
    \<and> (\<forall>c \<in> set (spec_windows data). length c = 32)
    \<and> map spec_hex_decode (map to_hex (spec_windows data)) = map Some (spec_windows data)
    \<and> concat (spec_windows data) = data
    \<and> (k = 0 \<longrightarrow> fst (read_public_inputs p w) = Inr [])
    \<and> files (snd (read_public_inputs p w)) = files w"
proof (intro conjI)
  from assms(2) have m: "length data mod 32 = 0" by simp
  show r: "fst (read_public_inputs p w) = Inr (map to_hex (spec_windows data))"
    using m comprehension_windows [OF assms(2)]
    by (simp add: read_public_inputs_file [OF assms(1)])
  show "length (map to_hex (spec_windows data)) = k"
    using assms(2) by (simp add: length_spec_windows)
  show "\<forall>c \<in> set (spec_windows data). length c = 32"
    using spec_windows_size [OF assms(2)] by blast
  show "map spec_hex_decode (map to_hex (spec_windows data)) = map Some (spec_windows data)"
    by (rule decode_windows)
  show "concat (spec_windows data) = data"
    using assms(2) by (rule concat_spec_windows)
  show "k = 0 \<longrightarrow> fst (read_public_inputs p w) = Inr []"
    using r assms(2) by (simp add: spec_windows_def)
  show "files (snd (read_public_inputs p w)) = files w"
    by (simp add: read_public_inputs_file [OF assms(1)])
qed

lemmas demo_simps =
  demo_world_def directory_world_def demo_base_def deposit_dir_def transfer_dir_def
  withdraw_dir_def partial_dir_def proof_path_eq public_inputs_path_eq output_path_eq

lemma demo_deposit_public:
  "files demo_world (public_inputs_path deposit_dir) = Some (File (replicate 64 0))"
  by (simp add: demo_simps)

lemma spec_windows_64: "spec_windows (replicate 64 (0 :: byte)) = [replicate 32 0, replicate 32 0]"
  by (simp add: spec_windows_def upt_rec)

lemma read_public_inputs_ok:
  assumes "files w p = Some (File data)" and "length data mod 32 = 0"
  shows "read_public_inputs p w =
     (Inr (map to_hex (spec_windows data)), w\<lparr>trace := trace w @ [ReadBytes p]\<rparr>)"
proof -
  from assms(2) obtain k where "length data = 32 * k"
    by (auto simp: mod_eq_0_iff_dvd)
  from comprehension_windows [OF this] assms show ?thesis
    by (simp only: read_public_inputs_file [OF assms(1)] if_False not_not simp_thms)
qed

lemma read_public_inputs_bad:
  assumes "files w p = Some (File data)" and "length data mod 32 \<noteq> 0"
  shows "read_public_inputs p w =
     (Inl (ValueError (malformed_message p (length data))), w\<lparr>trace := trace w @ [ReadBytes p]\<rparr>)"
  using assms by (simp add: read_public_inputs_file)

theorem read_public_inputs_windows_witness:
  "files demo_world (public_inputs_path deposit_dir) = Some (File (replicate 64 0))
   \<and> length (replicate 64 (0 :: byte)) = 32 * 2
   \<and> fst (read_public_inputs (public_inputs_path deposit_dir) demo_world)
       = Inr [to_hex (replicate 32 0), to_hex (replicate 32 0)]
   \<and> concat (spec_windows (replicate 64 0)) = replicate 64 (0 :: byte)"
proof -
  have len: "length (replicate 64 (0 :: byte)) = 32 * 2" by simp
  show ?thesis
    using read_public_inputs_windows [OF demo_deposit_public len] demo_deposit_public
    by (simp add: spec_windows_64)
qed

section \<open>The cases of \<^verbatim>\<open>export_directory\<close>\<close>

lemma export_missing_proof:
  "files w (proof_path d) = None \<Longrightarrow>
   export_directory d w =
     (Inl (FileNotFoundError (missing_message d)), w\<lparr>trace := trace w @ [Exists (proof_path d)]\<rparr>)"
  by (simp add: export_directory_def path_exists_def log_event_def)

lemma export_missing_public:
  "files w (proof_path d) = Some e \<Longrightarrow> files w (public_inputs_path d) = None \<Longrightarrow>
   export_directory d w =
     (Inl (FileNotFoundError (missing_message d)),
      w\<lparr>trace := trace w @ [Exists (proof_path d), Exists (public_inputs_path d)]\<rparr>)"
  by (simp add: export_directory_def path_exists_def log_event_def)

lemma export_proof_directory:
  "files w (proof_path d) = Some Directory \<Longrightarrow> files w (public_inputs_path d) = Some e \<Longrightarrow>
   export_directory d w =
     (Inl (OSError EISDIR (proof_path d)),
      w\<lparr>trace := trace w @ [Exists (proof_path d), Exists (public_inputs_path d),
                             ReadBytes (proof_path d)]\<rparr>)"
  by (simp add: export_directory_def path_exists_def read_bytes_def log_event_def)

lemma export_public_directory:
  "files w (proof_path d) = Some (File pd) \<Longrightarrow> files w (public_inputs_path d) = Some Directory \<Longrightarrow>
   export_directory d w =
     (Inl (OSError EISDIR (public_inputs_path d)),
      w\<lparr>trace := trace w @ [Exists (proof_path d), Exists (public_inputs_path d),
                             ReadBytes (proof_path d), ReadBytes (public_inputs_path d)]\<rparr>)"
  by (simp add: export_directory_def path_exists_def read_bytes_def read_public_inputs_def log_event_def)

lemma export_malformed:
  "files w (proof_path d) = Some (File pd) \<Longrightarrow> files w (public_inputs_path d) = Some (File data) \<Longrightarrow>
   length data mod 32 \<noteq> 0 \<Longrightarrow>
   export_directory d w =
     (Inl (ValueError (malformed_message (public_inputs_path d) (length data))),
      w\<lparr>trace := trace w @ [Exists (proof_path d), Exists (public_inputs_path d),
                             ReadBytes (proof_path d), ReadBytes (public_inputs_path d)]\<rparr>)"
  by (simp add: export_directory_def path_exists_def read_bytes_def read_public_inputs_bad
      log_event_def)

lemma export_output_directory:
  "files w (proof_path d) = Some (File pd) \<Longrightarrow> files w (public_inputs_path d) = Some (File data) \<Longrightarrow>
   length data mod 32 = 0 \<Longrightarrow> files w (output_path d) = Some Directory \<Longrightarrow>
   export_directory d w =
     (Inl (OSError EISDIR (output_path d)),
      w\<lparr>trace := trace w @ [Exists (proof_path d), Exists (public_inputs_path d),
                             ReadBytes (proof_path d), ReadBytes (public_inputs_path d),
                             WriteText (output_path d)
                               (dumps_indent2 (make_payload (to_hex pd) (map to_hex (spec_windows data))))]\<rparr>)"
  by (simp add: export_directory_def path_exists_def read_bytes_def read_public_inputs_ok
      log_event_def write_text_def Let_def)

lemma export_success:
  "files w (proof_path d) = Some (File pd) \<Longrightarrow> files w (public_inputs_path d) = Some (File data) \<Longrightarrow>
   length data mod 32 = 0 \<Longrightarrow> files w (output_path d) \<noteq> Some Directory \<Longrightarrow>
   export_directory d w =
     (Inr (make_payload (to_hex pd) (map to_hex (spec_windows data))),
      w\<lparr>files := (files w)(output_path d \<mapsto>
                   File (encode_text (dumps_indent2 (make_payload (to_hex pd) (map to_hex (spec_windows data)))))),
        trace := trace w @ [Exists (proof_path d), Exists (public_inputs_path d),
                             ReadBytes (proof_path d), ReadBytes (public_inputs_path d),
                             WriteText (output_path d)
                               (dumps_indent2 (make_payload (to_hex pd) (map to_hex (spec_windows data))))]\<rparr>)"
  by (cases "files w (output_path d)")
     (simp_all add: export_directory_def path_exists_def read_bytes_def read_public_inputs_ok
      log_event_def write_text_def Let_def split: entry.splits)

lemma export_cases [case_names missing_proof missing_public proof_directory public_directory malformed output_directory success]:
  obtains
    (missing_proof) "files w (proof_path d) = None"
  | (missing_public) e where "files w (proof_path d) = Some e" "files w (public_inputs_path d) = None"
  | (proof_directory) e where "files w (proof_path d) = Some Directory" "files w (public_inputs_path d) = Some e"
  | (public_directory) pd where "files w (proof_path d) = Some (File pd)" "files w (public_inputs_path d) = Some Directory"
  | (malformed) pd data where "files w (proof_path d) = Some (File pd)"
      "files w (public_inputs_path d) = Some (File data)" "length data mod 32 \<noteq> 0"
  | (output_directory) pd data where "files w (proof_path d) = Some (File pd)"
      "files w (public_inputs_path d) = Some (File data)" "length data mod 32 = 0"
      "files w (output_path d) = Some Directory"
  | (success) pd data where "files w (proof_path d) = Some (File pd)"
      "files w (public_inputs_path d) = Some (File data)" "length data mod 32 = 0"
      "files w (output_path d) \<noteq> Some Directory"
proof (cases "files w (proof_path d)")
  case None
  then show ?thesis by (rule missing_proof)
next
  case p: (Some e)
  show ?thesis
  proof (cases "files w (public_inputs_path d)")
    case None
    with p show ?thesis by (rule missing_public)
  next
    case q: (Some e')
    show ?thesis
    proof (cases e)
      case Directory
      with p q show ?thesis by (simp add: proof_directory)
    next
      case (File pd)
      note pf = this
      show ?thesis
      proof (cases e')
        case Directory
        with p q pf show ?thesis by (simp add: public_directory)
      next
        case (File data)
        with p q pf show ?thesis
          by (cases "length data mod 32 = 0"; cases "files w (output_path d) = Some Directory")
             (simp_all add: malformed output_directory success)
      qed
    qed
  qed
qed

lemma export_failure_files:
  "export_directory d w = (Inl e, w') \<Longrightarrow> files w' = files w"
  by (cases w d rule: export_cases)
     (auto simp: export_missing_proof export_missing_public export_proof_directory
        export_public_directory export_malformed export_output_directory export_success)

lemma export_files_frame:
  "p \<noteq> output_path d \<Longrightarrow> files (snd (export_directory d w)) p = files w p"
  by (cases w d rule: export_cases)
     (auto simp: export_missing_proof export_missing_public export_proof_directory
        export_public_directory export_malformed export_output_directory export_success)

lemma printed_append: "printed (xs @ ys) = printed xs @ printed ys"
  by (induction xs rule: printed.induct) simp_all

lemma written_append: "written (xs @ ys) = written xs @ written ys"
  by (induction xs rule: written.induct) simp_all

lemma export_printed:
  "printed (trace (snd (export_directory d w))) = printed (trace w)"
  by (cases w d rule: export_cases)
     (auto simp: export_missing_proof export_missing_public export_proof_directory
        export_public_directory export_malformed export_output_directory export_success
        printed_append)

lemma export_success_iff:
  "(\<exists>p. fst (export_directory d w) = Inr p) \<longleftrightarrow> exportable w d"
  by (cases w d rule: export_cases)
     (auto simp: export_missing_proof export_missing_public export_proof_directory
        export_public_directory export_malformed export_output_directory export_success
        exportable_def split: entry.splits option.splits)

lemma export_loop_append:
  "export_loop base (pre @ post) acc w =
     (case export_loop base pre acc w of
        (Inl e, w') \<Rightarrow> (Inl e, w')
      | (Inr r, w') \<Rightarrow> export_loop base post r w')"
  by (induction pre arbitrary: acc w) (auto split: prod.splits sum.splits)

lemma export_loop_printed:
  "printed (trace (snd (export_loop base cs acc w))) = printed (trace w)"
proof (induction cs arbitrary: acc w)
  case Nil
  show ?case by simp
next
  case (Cons c cs)
  show ?case
  proof (cases "export_directory (joinpath base c) w")
    case (Pair r w')
    with export_printed [of "joinpath base c" w] have p: "printed (trace w') = printed (trace w)"
      by simp
    show ?thesis
    proof (cases r)
      case (Inl e)
      with Pair p show ?thesis by simp
    next
      case (Inr payload)
      with Pair p Cons.IH [of "dict_setitem acc c payload" w'] show ?thesis by simp
    qed
  qed
qed

lemma export_loop_files_frame:
  "(\<forall>c \<in> set cs. p \<noteq> output_path (joinpath base c)) \<Longrightarrow>
   files (snd (export_loop base cs acc w)) p = files w p"
proof (induction cs arbitrary: acc w)
  case Nil
  show ?case by simp
next
  case (Cons c cs)
  from Cons.prems have ne: "p \<noteq> output_path (joinpath base c)" by simp
  show ?case
  proof (cases "export_directory (joinpath base c) w")
    case (Pair r w')
    with export_files_frame [OF ne, of w] have f: "files w' p = files w p"
      by simp
    show ?thesis
    proof (cases r)
      case (Inl e)
      with Pair f show ?thesis by simp
    next
      case (Inr payload)
      with Pair f Cons.IH [of "dict_setitem acc c payload" w'] Cons.prems show ?thesis by simp
    qed
  qed
qed

lemma main_nonempty:
  "cs \<noteq> [] \<Longrightarrow>
   main cs base w =
     (case export_loop base cs [] w of
        (Inl e, w') \<Rightarrow> (Inl e, w')
      | (Inr results, w') \<Rightarrow> (Inr (), print (dumps_indent2 (JObject results)) w'))"
  by (simp add: main_def parse_args_def)

lemma main_failure:
  assumes "export_loop base pre [] w0 = (Inr r, w1)"
    and "export_directory (joinpath base c) w1 = (Inl e, w2)"
  shows "main (pre @ c # post) base w0 = (Inl e, w2)"
  using assms by (simp add: main_nonempty export_loop_append)

lemma main_success:
  assumes "export_loop base (circuits (parse_args cs base)) [] w0 = (Inr results, w')"
  shows "main cs base w0 =
    (Inr (), w'\<lparr>trace := trace w' @ [Print (dumps_indent2 (JObject results))]\<rparr>)"
  using assms by (simp add: main_def print_def log_event_def parse_args_def)

lemma read_malformed_iff:
  "(\<exists>msg. fst (read_public_inputs p v) = Inl (ValueError msg))
     \<longleftrightarrow> (\<exists>bs. files v p = Some (File bs) \<and> length bs mod 32 \<noteq> 0)"
proof (cases "files v p")
  case None
  then show ?thesis by (simp add: read_public_inputs_def read_bytes_def)
next
  case (Some e)
  then show ?thesis
    by (cases e) (simp_all add: read_public_inputs_def read_bytes_def FIELD_ELEMENT_SIZE_def)
qed

text \<open>
  C2. The reader fails with the \<open>ValueError\<close> of the length check exactly when the path
  holds a regular file whose length is not a multiple of 32. In a run that reaches a
  circuit with such a public-inputs file (after the circuits \<open>pre\<close> were exported), the
  message names the path and the length; \<^verbatim>\<open>export_directory\<close> fails with that error,
  changes no file and calls no write; the run ends with that error and a non-zero status
  whatever circuits follow, and prints nothing.
\<close>

theorem malformed_input_fatal:
  assumes pre: "export_loop base pre [] w0 = (Inr r, w)"
    and pf: "files w (proof_path (joinpath base c)) = Some (File pd)"
    and pub: "files w (public_inputs_path (joinpath base c)) = Some (File data)"
    and bad: "length data mod 32 \<noteq> 0"
  shows "((\<exists>msg. fst (read_public_inputs p v) = Inl (ValueError msg))
           \<longleftrightarrow> (\<exists>bs. files v p = Some (File bs) \<and> length bs mod 32 \<noteq> 0))
    \<and> fst (read_public_inputs (public_inputs_path (joinpath base c)) w) =
        Inl (ValueError (''Public inputs file '' @ path_str (public_inputs_path (joinpath base c))
              @ '' length '' @ str_nat (length data) @ '' is not a multiple of 32''))
    \<and> fst (export_directory (joinpath base c) w) =
        Inl (ValueError (malformed_message (public_inputs_path (joinpath base c)) (length data)))
    \<and> files (snd (export_directory (joinpath base c) w)) = files w
    \<and> written (trace (snd (export_directory (joinpath base c) w))) = written (trace w)
    \<and> main (pre @ c # post) base w0 =
        (Inl (ValueError (malformed_message (public_inputs_path (joinpath base c)) (length data))),
         snd (export_directory (joinpath base c) w))
    \<and> exit_status (fst (main (pre @ c # post) base w0)) = 1
    \<and> printed (trace (snd (main (pre @ c # post) base w0))) = printed (trace w0)"
proof (intro conjI)
  let ?d = "joinpath base c"
  note ex = export_malformed [OF pf pub bad]
  show "(\<exists>msg. fst (read_public_inputs p v) = Inl (ValueError msg))
           \<longleftrightarrow> (\<exists>bs. files v p = Some (File bs) \<and> length bs mod 32 \<noteq> 0)"
    by (rule read_malformed_iff)
  show rd: "fst (read_public_inputs (public_inputs_path ?d) w) =
        Inl (ValueError (''Public inputs file '' @ path_str (public_inputs_path ?d)
              @ '' length '' @ str_nat (length data) @ '' is not a multiple of 32''))"
    by (simp add: read_public_inputs_bad [OF pub bad] malformed_message_def)
  show "fst (export_directory ?d w) =
        Inl (ValueError (malformed_message (public_inputs_path ?d) (length data)))"
    by (simp add: ex)
  show "files (snd (export_directory ?d w)) = files w"
    by (simp add: ex)
  show "written (trace (snd (export_directory ?d w))) = written (trace w)"
    by (simp add: ex written_append)
  show m: "main (pre @ c # post) base w0 =
        (Inl (ValueError (malformed_message (public_inputs_path ?d) (length data))),
         snd (export_directory ?d w))"
    using main_failure [OF pre ex] by (simp add: ex)
  show "exit_status (fst (main (pre @ c # post) base w0)) = 1"
    by (simp add: m ex exit_status_def)
  have "printed (trace (snd (export_loop base pre [] w0))) = printed (trace w0)"
    by (rule export_loop_printed)
  then show "printed (trace (snd (main (pre @ c # post) base w0))) = printed (trace w0)"
    by (simp add: m ex pre printed_append)
qed

lemma demo_join:
  "joinpath demo_base ''deposit'' = deposit_dir"
  "joinpath demo_base ''transfer'' = transfer_dir"
  "joinpath demo_base ''withdraw'' = withdraw_dir"
  "joinpath demo_base ''partial'' = partial_dir"
  by (simp_all add: joinpath_def parse_path_def demo_simps)

lemma demo_transfer_files:
  "files demo_world (proof_path transfer_dir) = Some (File [0x01])"
  "files demo_world (public_inputs_path transfer_dir) = Some (File (replicate 31 0))"
  "files demo_world (output_path transfer_dir) = Some (File [4, 5])"
  by (simp_all add: demo_simps)

lemma str_nat_31: "str_nat 31 = ''31''"
  by (simp add: str_nat.simps digit_char_def)

lemma path_str_transfer_public:
  "path_str (public_inputs_path transfer_dir) = ''circuits/transfer/target/public_inputs''"
  by (simp add: path_str_def demo_simps)

theorem malformed_input_fatal_witness:
  "export_loop demo_base [] [] demo_world = (Inr [], demo_world)
   \<and> files demo_world (proof_path (joinpath demo_base ''transfer'')) = Some (File [0x01])
   \<and> files demo_world (public_inputs_path (joinpath demo_base ''transfer''))
       = Some (File (replicate 31 0))
   \<and> length (replicate 31 (0 :: byte)) mod 32 \<noteq> 0
   \<and> fst (main [''transfer'', ''withdraw''] demo_base demo_world) =
       Inl (ValueError
         ''Public inputs file circuits/transfer/target/public_inputs length 31 is not a multiple of 32'')
   \<and> exit_status (fst (main [''transfer'', ''withdraw''] demo_base demo_world)) = 1
   \<and> files (snd (main [''transfer'', ''withdraw''] demo_base demo_world)) = files demo_world
   \<and> printed (trace (snd (main [''transfer'', ''withdraw''] demo_base demo_world))) = []"
proof -
  have h1: "export_loop demo_base [] [] demo_world = (Inr [], demo_world)" by simp
  have h2: "files demo_world (proof_path (joinpath demo_base ''transfer'')) = Some (File [0x01])"
    by (simp add: demo_join demo_transfer_files)
  have h3: "files demo_world (public_inputs_path (joinpath demo_base ''transfer''))
       = Some (File (replicate 31 0))"
    by (simp add: demo_join demo_transfer_files)
  have h4: "length (replicate 31 (0 :: byte)) mod 32 \<noteq> 0" by simp
  have t: "trace demo_world = []" by (simp add: demo_world_def)
  from malformed_input_fatal [OF h1 h2 h3 h4, where post = "[''withdraw'']"
      and p = "public_inputs_path transfer_dir" and v = demo_world]
  show ?thesis
    using h1 h2 h3 h4
    by (auto simp add: demo_join malformed_message_def str_nat_31 path_str_transfer_public t
        exit_status_def)
qed

lemmas export_case_simps =
  export_missing_proof export_missing_public export_proof_directory
  export_public_directory export_malformed export_output_directory export_success

section \<open>Missing artefacts\<close>





section \<open>What an export changes\<close>




lemma demo_deposit_files:
  "files demo_world (proof_path deposit_dir) = Some (File [0xAB, 0xCD])"
  "files demo_world (public_inputs_path deposit_dir) = Some (File (replicate 64 0))"
  "files demo_world (output_path deposit_dir) = Some (File [1, 2, 3])"
  by (simp_all add: demo_simps)

lemma demo_deposit_export:
  "fst (export_directory deposit_dir demo_world) =
     Inr (make_payload (to_hex [0xAB, 0xCD]) [to_hex (replicate 32 0), to_hex (replicate 32 0)])"
proof -
  have m: "length (replicate 64 (0 :: byte)) mod 32 = 0" by simp
  have o: "files demo_world (output_path deposit_dir) \<noteq> Some Directory"
    by (simp add: demo_deposit_files)
  show ?thesis
    by (simp add: export_success [OF demo_deposit_files(1,2) m o] spec_windows_64)
qed


section \<open>The loop over the circuits\<close>

lemma export_result_cong:
  assumes "files w2 (proof_path d) = files w1 (proof_path d)"
    and "files w2 (public_inputs_path d) = files w1 (public_inputs_path d)"
    and "(files w2 (output_path d) = Some Directory) = (files w1 (output_path d) = Some Directory)"
  shows "fst (export_directory d w2) = fst (export_directory d w1)"
  using assms
  by (cases w1 d rule: export_cases) (simp_all add: export_case_simps)

lemma export_success_world:
  assumes "export_directory d w = (Inr payload, w')"
  shows "files w' = (files w)(output_path d \<mapsto> File (encode_text (dumps_indent2 payload)))
    \<and> files w (output_path d) \<noteq> Some Directory
    \<and> written (trace w') = written (trace w) @ [output_path d]"
  using assms
  by (cases w d rule: export_cases) (auto simp add: export_case_simps written_append)

lemma export_result_stable:
  assumes "export_directory d' w = (Inr payload, w')"
  shows "fst (export_directory d w') = fst (export_directory d w)"
proof (rule export_result_cong)
  note s = export_success_world [OF assms]
  show "files w' (proof_path d) = files w (proof_path d)"
    using s output_neq_proof [of d' d] by (simp add: fun_upd_apply)
  show "files w' (public_inputs_path d) = files w (public_inputs_path d)"
    using s output_neq_public [of d' d] by (simp add: fun_upd_apply)
  show "(files w' (output_path d) = Some Directory) = (files w (output_path d) = Some Directory)"
    using s by (cases "output_path d = output_path d'") simp_all
qed










lemma export_loop_failure:
  "export_loop base cs acc w = (Inl e, w2) \<Longrightarrow>
   \<exists>pre c post r w1. cs = pre @ c # post \<and> export_loop base pre acc w = (Inr r, w1)
     \<and> export_directory (joinpath base c) w1 = (Inl e, w2)"
proof (induction cs arbitrary: acc w)
  case Nil
  then show ?case by simp
next
  case (Cons x cs)
  show ?case
  proof (cases "export_directory (joinpath base x) w")
    case (Pair res w1)
    show ?thesis
    proof (cases res)
      case (Inl e')
      with Pair Cons.prems have "export_directory (joinpath base x) w = (Inl e, w2)" by simp
      then have "x # cs = [] @ x # cs \<and> export_loop base [] acc w = (Inr acc, w)
        \<and> export_directory (joinpath base x) w = (Inl e, w2)" by simp
      then show ?thesis by blast
    next
      case (Inr p)
      with Pair Cons.prems have "export_loop base cs (dict_setitem acc x p) w1 = (Inl e, w2)"
        by simp
      from Cons.IH [OF this] obtain pre c post r w1' where
        "cs = pre @ c # post" "export_loop base pre (dict_setitem acc x p) w1 = (Inr r, w1')"
        "export_directory (joinpath base c) w1' = (Inl e, w2)" by blast
      with Pair Inr have "x # cs = (x # pre) @ c # post
        \<and> export_loop base (x # pre) acc w = (Inr r, w1')
        \<and> export_directory (joinpath base c) w1' = (Inl e, w2)" by simp
      then show ?thesis by blast
    qed
  qed
qed

lemma exportable_stable:
  assumes "export_directory d' w = (Inr payload, w')"
  shows "exportable w' d = exportable w d"
  using export_result_stable [OF assms, of d] export_success_iff [of d w] export_success_iff [of d w']
  by simp

lemma export_loop_succeeds:
  "\<forall>c \<in> set cs. exportable w (joinpath base c) \<Longrightarrow>
   \<exists>results. fst (export_loop base cs acc w) = Inr results"
proof (induction cs arbitrary: acc w)
  case Nil
  show ?case by simp
next
  case (Cons x cs)
  from Cons.prems have "exportable w (joinpath base x)" by simp
  then obtain p where "fst (export_directory (joinpath base x) w) = Inr p"
    using export_success_iff by blast
  then obtain w1 where e: "export_directory (joinpath base x) w = (Inr p, w1)"
    by (cases "export_directory (joinpath base x) w") simp
  from Cons.prems have "\<forall>c \<in> set cs. exportable w1 (joinpath base c)"
    by (simp add: exportable_stable [OF e])
  from Cons.IH [OF this, of "dict_setitem acc x p"] e show ?case by simp
qed

section \<open>The run\<close>

text \<open>
  C6. If the export of a circuit fails after the circuits \<open>pre\<close> before it were exported,
  the run ends with that very error and in the world the failing call left: no later
  circuit is processed, whatever follows in the list. The status is non-zero, no file
  differs from the files after \<open>pre\<close>, a path that is not the output of a circuit of
  \<open>pre\<close> holds what it held at the start, and nothing is printed. Every failing run is of
  this kind. When the loop succeeds on all the names, the report is printed as the last
  operation and the status is zero.
\<close>

theorem fail_fast:
  "(export_loop base pre [] w0 = (Inr r, w1)
      \<and> export_directory (joinpath base c) w1 = (Inl e, w2)
    \<longrightarrow> main (pre @ c # post) base w0 = (Inl e, w2)
      \<and> exit_status (fst (main (pre @ c # post) base w0)) \<noteq> 0
      \<and> files w2 = files w1
      \<and> printed (trace w2) = printed (trace w0)
      \<and> (\<forall>p. p \<notin> set (map (\<lambda>n. output_path (joinpath base n)) pre) \<longrightarrow> files w2 p = files w0 p))
   \<and> (fst (main argv base w0) = Inl e
    \<longrightarrow> (\<exists>pre c post r w1 w2.
          circuits (parse_args argv base) = pre @ c # post
        \<and> export_loop base pre [] w0 = (Inr r, w1)
        \<and> export_directory (joinpath base c) w1 = (Inl e, w2)
        \<and> main argv base w0 = (Inl e, w2)))
   \<and> (export_loop base (circuits (parse_args argv base)) [] w0 = (Inr results, w')
    \<longrightarrow> main argv base w0
          = (Inr (), w'\<lparr>trace := trace w' @ [Print (dumps_indent2 (JObject results))]\<rparr>)
      \<and> exit_status (fst (main argv base w0)) = 0
      \<and> printed (trace (snd (main argv base w0)))
          = printed (trace w0) @ [dumps_indent2 (JObject results)])"
proof (intro conjI impI)
  assume a: "export_loop base pre [] w0 = (Inr r, w1)
      \<and> export_directory (joinpath base c) w1 = (Inl e, w2)"
  then have pre: "export_loop base pre [] w0 = (Inr r, w1)"
    and ex: "export_directory (joinpath base c) w1 = (Inl e, w2)" by simp_all
  show m: "main (pre @ c # post) base w0 = (Inl e, w2)"
    by (rule main_failure [OF pre ex])
  show "exit_status (fst (main (pre @ c # post) base w0)) \<noteq> 0"
    by (simp add: m exit_status_def)
  show "files w2 = files w1"
    by (rule export_failure_files [OF ex])
  have "printed (trace w1) = printed (trace w0)"
    using export_loop_printed [of base pre "[]" w0] pre by simp
  moreover have "printed (trace w2) = printed (trace w1)"
    using export_printed [of "joinpath base c" w1] ex by simp
  ultimately show "printed (trace w2) = printed (trace w0)" by simp
  show "\<forall>p. p \<notin> set (map (\<lambda>n. output_path (joinpath base n)) pre) \<longrightarrow> files w2 p = files w0 p"
  proof (intro allI impI)
    fix p
    assume "p \<notin> set (map (\<lambda>n. output_path (joinpath base n)) pre)"
    then have "\<forall>n \<in> set pre. p \<noteq> output_path (joinpath base n)" by auto
    from export_loop_files_frame [OF this, of "[]" w0] pre have "files w1 p = files w0 p"
      by simp
    with export_failure_files [OF ex] show "files w2 p = files w0 p" by simp
  qed
next
  assume f: "fst (main argv base w0) = Inl e"
  let ?cs = "circuits (parse_args argv base)"
  obtain res wl where l: "export_loop base ?cs [] w0 = (res, wl)"
    by (cases "export_loop base ?cs [] w0")
  have b: "base_dir (parse_args argv base) = base" by (simp add: parse_args_def)
  from f l b have res: "res = Inl e"
    by (cases res) (simp_all add: main_def)
  with l b have m: "main argv base w0 = (Inl e, wl)"
    by (simp add: main_def)
  from export_loop_failure [OF l [unfolded res]] obtain pre c post r w1 where
    "?cs = pre @ c # post" "export_loop base pre [] w0 = (Inr r, w1)"
    "export_directory (joinpath base c) w1 = (Inl e, wl)" by blast
  with m show "\<exists>pre c post r w1 w2.
          ?cs = pre @ c # post
        \<and> export_loop base pre [] w0 = (Inr r, w1)
        \<and> export_directory (joinpath base c) w1 = (Inl e, w2)
        \<and> main argv base w0 = (Inl e, w2)" by blast
next
  assume s: "export_loop base (circuits (parse_args argv base)) [] w0 = (Inr results, w')"
  show m: "main argv base w0
          = (Inr (), w'\<lparr>trace := trace w' @ [Print (dumps_indent2 (JObject results))]\<rparr>)"
    by (rule main_success [OF s])
  show "exit_status (fst (main argv base w0)) = 0"
    by (simp add: m exit_status_def)
  have "printed (trace w') = printed (trace w0)"
    using export_loop_printed [of base "circuits (parse_args argv base)" "[]" w0] s by simp
  then show "printed (trace (snd (main argv base w0)))
          = printed (trace w0) @ [dumps_indent2 (JObject results)]"
    by (simp add: m printed_append)
qed

lemma demo_withdraw_files:
  "files demo_world (proof_path withdraw_dir) = Some (File [0xFF])"
  "files demo_world (public_inputs_path withdraw_dir) = Some (File [])"
  "files demo_world (output_path withdraw_dir) = None"
  by (simp_all add: demo_simps)

lemma to_hex_ff: "to_hex [0xFF] = ''0xff''"
  by (simp add: to_hex_def bytes_hex_def hex_byte_def hex_digit_def hexdigits_def)

lemma demo_withdraw_export:
  assumes "files w (proof_path withdraw_dir) = Some (File [0xFF])"
    and "files w (public_inputs_path withdraw_dir) = Some (File [])"
    and "files w (output_path withdraw_dir) \<noteq> Some Directory"
  shows "fst (export_directory withdraw_dir w) = Inr (make_payload ''0xff'' [])"
  using export_success [OF assms(1,2) _ assms(3)]
  by (simp add: spec_windows_def to_hex_ff)

lemma pair_fst_snd: "fst x = a \<Longrightarrow> x = (a, snd x)"
  by (cases x) simp

lemma export_loop_single:
  "fst (export_directory (joinpath base c) w) = Inr p \<Longrightarrow>
   export_loop base [c] [] w = (Inr [(c, p)], snd (export_directory (joinpath base c) w))"
  by (cases "export_directory (joinpath base c) w") simp

lemma demo_after_deposit:
  "files (snd (export_directory deposit_dir demo_world)) (proof_path transfer_dir) = Some (File [0x01])"
  "files (snd (export_directory deposit_dir demo_world)) (public_inputs_path transfer_dir)
     = Some (File (replicate 31 0))"
  using output_neq_proof [of deposit_dir transfer_dir] output_neq_public [of deposit_dir transfer_dir]
  by (simp_all add: export_files_frame demo_transfer_files)

theorem fail_fast_witness:
  "main [''deposit'', ''transfer'', ''withdraw''] demo_base demo_world =
     (Inl (ValueError (malformed_message (public_inputs_path transfer_dir) 31)),
      snd (export_directory transfer_dir (snd (export_directory deposit_dir demo_world))))
   \<and> exit_status (fst (main [''deposit'', ''transfer'', ''withdraw''] demo_base demo_world)) = 1
   \<and> files (snd (main [''deposit'', ''transfer'', ''withdraw''] demo_base demo_world))
        (output_path withdraw_dir) = None
   \<and> printed (trace (snd (main [''deposit'', ''transfer'', ''withdraw''] demo_base demo_world))) = []
   \<and> fst (main [''withdraw''] demo_base demo_world) = Inr ()
   \<and> exit_status (fst (main [''withdraw''] demo_base demo_world)) = 0
   \<and> printed (trace (snd (main [''withdraw''] demo_base demo_world)))
       = [dumps_indent2 (JObject [(''withdraw'', make_payload ''0xff'' [])])]"
proof -
  let ?w1 = "snd (export_directory deposit_dir demo_world)"
  let ?w2 = "snd (export_directory transfer_dir ?w1)"
  let ?e = "ValueError (malformed_message (public_inputs_path transfer_dir) 31)"
  have t: "trace demo_world = []" by (simp add: demo_world_def)
  have pre: "export_loop demo_base [''deposit''] [] demo_world =
      (Inr [(''deposit'', make_payload (to_hex [0xAB, 0xCD])
               [to_hex (replicate 32 0), to_hex (replicate 32 0)])], ?w1)"
    using export_loop_single [of demo_base "''deposit''" demo_world] demo_deposit_export
    by (simp add: demo_join)
  have "export_directory transfer_dir ?w1 = (Inl ?e, ?w2)"
    by (rule pair_fst_snd) (simp add: export_malformed [OF demo_after_deposit])
  then have ex: "export_directory (joinpath demo_base ''transfer'') ?w1 = (Inl ?e, ?w2)"
    by (simp add: demo_join)
  note f = fail_fast [where post = "[''withdraw'']", THEN conjunct1, THEN mp, OF conjI [OF pre ex]]
  have o: "output_path withdraw_dir \<notin> set (map (\<lambda>n. output_path (joinpath demo_base n)) [''deposit''])"
    unfolding list.map demo_join by (simp add: demo_simps)
  have fail: "main [''deposit'', ''transfer'', ''withdraw''] demo_base demo_world = (Inl ?e, ?w2)"
    "files ?w2 (output_path withdraw_dir) = None"
    "printed (trace ?w2) = []"
    using f [THEN conjunct1]
      f [THEN conjunct2, THEN conjunct2, THEN conjunct2, THEN conjunct2, THEN spec, THEN mp, OF o]
      f [THEN conjunct2, THEN conjunct2, THEN conjunct2, THEN conjunct1]
    by (simp_all add: demo_withdraw_files t)
  let ?pw = "make_payload ''0xff'' []"
  let ?w3 = "snd (export_directory withdraw_dir demo_world)"
  have "fst (export_directory withdraw_dir demo_world) = Inr ?pw"
    by (simp add: demo_withdraw_export demo_withdraw_files)
  with export_loop_single [of demo_base "''withdraw''" demo_world]
  have "export_loop demo_base (circuits (parse_args [''withdraw''] demo_base)) [] demo_world
      = (Inr [(''withdraw'', ?pw)], ?w3)"
    by (simp add: parse_args_def demo_join)
  note g = fail_fast [THEN conjunct2, THEN conjunct2, THEN mp, OF this]
  have ok: "fst (main [''withdraw''] demo_base demo_world) = Inr ()"
    using g [THEN conjunct1] by simp
  from fail ok g [THEN conjunct2, THEN conjunct2] show ?thesis
    by (simp add: exit_status_def t)
qed

section \<open>The aggregate report\<close>











section \<open>The record written\<close>




















end
